theory Spec2Isabelle
  imports Main
begin

section \<open>Exceptions and the outcome of a generator\<close>

text \<open>
  The Python exceptions that the modelled code raises or lets through. An exception
  raised by user code (a handler) is \<open>UserException\<close> with its name.
\<close>

datatype error =
    NotImplementedError
  | RuntimeError
  | ValueError
  | TypeError
  | UnsafeOperationException
  | UserException string

text \<open>
  A (synchronous or asynchronous) generator is observed through what it yields and how
  it ends: it returns, it raises, or it waits forever on a queue that nobody feeds.
\<close>

datatype ending = Finished | Raised error | Blocked

datatype 'a gen = Gen (items: "'a list") (ending: ending)

definition yield_first :: "'a \<Rightarrow> 'a gen \<Rightarrow> 'a gen" where
  "yield_first x g = Gen (x # items g) (ending g)"

section \<open>aitools/utils/asynctools.py\<close>

text \<open>
  Where a piece of code runs: in a thread without a running event loop, in a plain
  callback of the event loop \<open>l\<close> (no task is current), or in a task of the loop \<open>l\<close>.
  \<open>current_task\<close> is \<open>asyncio.current_task()\<close>: it raises RuntimeError when the thread
  has no running loop, and returns None when the loop runs no task.
\<close>

datatype caller = NoRunningLoop | LoopCallback nat | InTask nat

fun current_task :: "caller \<Rightarrow> error + nat option" where
  "current_task NoRunningLoop = Inl RuntimeError"
| "current_task (LoopCallback l) = Inr None"
| "current_task (InTask l) = Inr (Some l)"

definition is_inside_task :: "caller \<Rightarrow> bool" where
  "is_inside_task ctx = (case current_task ctx of Inl e \<Rightarrow> False | Inr t \<Rightarrow> True)"

text \<open>What travels through an \<open>asyncio.Queue\<close>: an element, or the poison pill.\<close>

datatype 'a queued = Item 'a | Pill

text \<open>
  \<open>collect\<close> pushes every element of the generator, then (in its \<open>finally\<close>) the pill.
  The first component is what it puts on the queue, the second the exception the
  coroutine ends with. A generator that never ends never reaches the \<open>finally\<close>.
\<close>

definition collect :: "'a gen \<Rightarrow> 'a queued list \<times> error option" where
  "collect async_generator =
     (case ending async_generator of
        Finished \<Rightarrow> (map Item (items async_generator) @ [Pill], None)
      | Raised e \<Rightarrow> (map Item (items async_generator) @ [Pill], Some e)
      | Blocked \<Rightarrow> (map Item (items async_generator), None))"

text \<open>
  The tasks that \<open>multiplex\<close> creates run concurrently: the queue receives some
  interleaving of what each of them puts. \<open>interleavings\<close> lists them all.
\<close>

fun interleave2 :: "'a list \<Rightarrow> 'a list \<Rightarrow> 'a list list" where
  "interleave2 [] ys = [ys]"
| "interleave2 xs [] = [xs]"
| "interleave2 (x # xs) (y # ys) =
     map ((#) x) (interleave2 xs (y # ys)) @ map ((#) y) (interleave2 (x # xs) ys)"

fun interleavings :: "'a list list \<Rightarrow> 'a list list" where
  "interleavings [] = [[]]"
| "interleavings (xs # xss) = concat (map (interleave2 xs) (interleavings xss))"

text \<open>
  The loop of \<open>multiplex\<close>: \<open>while currently_running_count > 0\<close>, get from the queue,
  count a pill down, yield anything else. The exceptions of the tasks are never
  retrieved (\<open>asyncio.create_task\<close> without an await of the task).
\<close>

fun multiplex_loop :: "nat \<Rightarrow> 'a queued list \<Rightarrow> 'a gen" where
  "multiplex_loop 0 queue = Gen [] Finished"
| "multiplex_loop (Suc n) [] = Gen [] Blocked"
| "multiplex_loop (Suc n) (Pill # queue) = multiplex_loop n queue"
| "multiplex_loop (Suc n) (Item res # queue) = yield_first res (multiplex_loop (Suc n) queue)"

text \<open>
  \<open>multiplex\<close> lists every behaviour of the multiplexed generator, each once. The size of
  the queue (\<open>buffer_size\<close>) only excludes some of the interleavings.
\<close>

definition multiplex :: "'a gen list \<Rightarrow> 'a gen list" where
  "multiplex generators =
     remdups (map (multiplex_loop (length generators))
                  (interleavings (map (\<lambda>generator. fst (collect generator)) generators)))"

text \<open>
  \<open>Scheduler.schedule_generator\<close>: the generator is collected into a queue on the
  scheduler's loop (the future of that \<open>collect\<close> is dropped, and its exception with
  it); the calling thread yields what it gets until the pill.
\<close>

fun schedule_loop :: "'a queued list \<Rightarrow> 'a gen" where
  "schedule_loop [] = Gen [] Blocked"
| "schedule_loop (Pill # queue) = Gen [] Finished"
| "schedule_loop (Item el # queue) = yield_first el (schedule_loop queue)"

definition schedule_generator :: "'a gen \<Rightarrow> 'a gen" where
  "schedule_generator generator = schedule_loop (fst (collect generator))"

section \<open>Terms, values, proofs\<close>

text \<open>
  Modelled from the spec: the classes of \<open>aitools.logic.core\<close> are not among the
  sources. A term is a variable (known by its identity), a constant, a wrapped host
  value, or an expression over children.
\<close>

datatype trm = Variable nat | Constant string | Wrapper string | Expression "trm list"

text \<open>
  Modelled from the spec: a substitution binds variables to terms; the classes of bound
  variables are read by following the bindings.
\<close>

type_synonym substitution = "(nat \<times> trm) list"

text \<open>
  The inference rules found in proofs: \<open>TriggeringFormula()\<close>,
  \<open>Pondering(listener, triggering_formula)\<close> (the listener is known by its identity),
  and a prover (known by its identity).
\<close>

datatype 'v inference_rule =
    TriggeringFormula
  | Pondering (listener: nat) (triggering_formula: 'v)
  | ProverRule nat

text \<open>
  Python values, as far as \<open>Listener.ponder\<close> tells them apart with \<open>isinstance\<close>:
  None, a LogicObject, a Substitution, a Proof, the two dataclasses of listeners.py, a
  tuple, another synchronous iterable (a list, a generator: what it yields and the
  exception it ends with, if any), an asynchronous iterable, a coroutine (what awaiting
  it gives), and any other object (one that cannot be iterated). A Proof holds whatever
  it was built with.
\<close>

datatype pyval =
    PyNone
  | LogicObject trm
  | SubstitutionV substitution
  | ProofV proof_t
  | FormulaSubstitution pyval pyval
  | FormulaSubstitutionPremises pyval pyval pyval
  | PyTuple "pyval list"
  | Iterable "pyval list" "error option"
  | AsyncIterable "pyval list" "error option"
  | Coroutine "error + pyval"
  | PyObject string
and proof_t =
    Proof (inference_rule: "pyval inference_rule") (conclusion: pyval)
          (substitution: pyval) (proof_premises: "pyval list")

fun is_LogicObject :: "pyval \<Rightarrow> bool" where
  "is_LogicObject (LogicObject t) = True"
| "is_LogicObject v = False"

fun is_Proof :: "pyval \<Rightarrow> bool" where
  "is_Proof (ProofV p) = True"
| "is_Proof v = False"

fun is_tuple :: "pyval \<Rightarrow> bool" where
  "is_tuple (PyTuple xs) = True"
| "is_tuple v = False"

text \<open>\<open>len\<close> of a tuple (0 stands for any value that is not a tuple; only tuples are asked).\<close>

fun len :: "pyval \<Rightarrow> nat" where
  "len (PyTuple xs) = length xs"
| "len v = 0"

fun tuple_elements :: "pyval \<Rightarrow> pyval list" where
  "tuple_elements (PyTuple xs) = xs"
| "tuple_elements v = []"

text \<open>
  \<open>isinstance(v, Iterable)\<close>: tuples and the other synchronous iterables. Terms,
  substitutions, proofs and the dataclasses of listeners.py are taken not to be iterable.
\<close>

fun is_Iterable :: "pyval \<Rightarrow> bool" where
  "is_Iterable (PyTuple xs) = True"
| "is_Iterable (Iterable xs e) = True"
| "is_Iterable v = False"

text \<open>
  Iterating a value to its end, as \<open>tuple(itertools.chain(...))\<close> does with the premises:
  the elements, or the exception (TypeError for a value that is not iterable).
\<close>

fun iterate :: "pyval \<Rightarrow> error + pyval list" where
  "iterate (PyTuple xs) = Inr xs"
| "iterate (Iterable xs None) = Inr xs"
| "iterate (Iterable xs (Some e)) = Inl e"
| "iterate v = Inl TypeError"

section \<open>aitools/proofs/components.py (not among the sources)\<close>

text \<open>
  Modelled from the spec: the enums \<open>HandlerSafety\<close> and \<open>HandlerArgumentMode\<close>, with the
  members that the spec lists and the tests use.
\<close>

datatype handler_safety = SAFE | TOTALLY_UNSAFE

datatype handler_argument_mode =
    RAW | MAP | MAP_UNWRAPPED | MAP_UNWRAPPED_REQUIRED | MAP_NO_VARIABLES
  | MAP_UNWRAPPED_NO_VARIABLES

text \<open>
  The keyword arguments a handler is called with: \<open>formula\<close> and \<open>substitution\<close> in RAW
  mode, otherwise one value for each variable of the listened formula (the variable
  stands for the parameter of its name).
\<close>

datatype handler_args = Raw pyval substitution | ByName "(nat \<times> pyval) list"

text \<open>
  A listener: its identity, the fields of a Component, and its handler as a function from
  the arguments to what the call returns or raises.
\<close>

record listener =
  listener_id :: nat
  listened_formula :: trm
  handler :: "handler_args \<Rightarrow> error + pyval"
  argument_mode :: handler_argument_mode
  pure :: bool
  safety :: handler_safety

text \<open>
  A prover: the same fields; its handler takes the goal and the previous substitution and
  is an asynchronous generator.
\<close>

record prover =
  prover_id :: nat
  prover_listened_formula :: trm
  prover_handler :: "pyval \<Rightarrow> pyval \<Rightarrow> pyval gen"
  prover_argument_mode :: handler_argument_mode
  prover_pure :: bool
  prover_safety :: handler_safety

text \<open>
  Modelled from the spec: the key of the abstruse index (\<open>aitools.storage.index\<close> is not
  among the sources): variables collapse to a wildcard, constants and wrappers are
  themselves, an expression is the sequence of its children's keys.
\<close>

datatype key = Wildcard | Atom trm | Seq "key list" | NoKey

text \<open>
  The functions of the modules that are not among the sources, as parameters:
  \<open>Substitution.unify(a, b, previous=s)\<close> (None when the terms do not unify),
  \<open>substitution.apply_to(term)\<close>, \<open>normalize_variables(term, language=...)\<close> with the
  mapping it returns, \<open>Component._extract_args_by_name\<close> (of a component with the
  given argument mode), \<open>make_key\<close>, the index's test
  that a registered key answers a queried key, and the storage's \<open>search_unifiable\<close>.
\<close>

record logic =
  unify :: "pyval \<Rightarrow> pyval \<Rightarrow> pyval \<Rightarrow> error + substitution option"
  apply_to :: "pyval \<Rightarrow> pyval \<Rightarrow> error + pyval"
  normalize_variables :: "trm \<Rightarrow> trm \<times> (nat \<times> nat) list"
  extract_args_by_name ::
    "handler_argument_mode \<Rightarrow> pyval \<Rightarrow> substitution \<Rightarrow> (nat \<times> nat) list \<Rightarrow>
     error + handler_args"
  make_key :: "pyval \<Rightarrow> key"
  key_answers :: "key \<Rightarrow> key \<Rightarrow> bool"
  search_unifiable :: "trm list \<Rightarrow> pyval \<Rightarrow> trm list"

section \<open>The knowledge base and its listeners\<close>

text \<open>
  The state of a \<open>KnowledgeBase\<close>: the stored formulas, the variable made for the knowledge
  retriever, the two indexes (what was registered, with its key, in order), and the
  identity of the event loop of its scheduler.
\<close>

record knowledge_base =
  storage :: "trm list"
  retriever_variable :: nat
  prover_storage :: "(key \<times> prover) list"
  listener_storage :: "(key \<times> listener) list"
  scheduler :: nat

definition is_hypothetical :: "knowledge_base \<Rightarrow> bool" where
  "is_hypothetical kb = False"

subsection \<open>aitools/proofs/listeners.py\<close>

text \<open>The enum \<open>PonderMode\<close>; \<open>NotAPonderMode\<close> is any other value passed as a mode.\<close>

datatype ponder_mode = KNOWN | PROVE | HYPOTHETICALLY | NotAPonderMode string

text \<open>The test that decides whether the handler's result is one item.\<close>

definition is_single_result :: "pyval \<Rightarrow> bool" where
  "is_single_result result =
     ((case result of
         LogicObject t \<Rightarrow> True
       | FormulaSubstitution f s \<Rightarrow> True
       | FormulaSubstitutionPremises f s p \<Rightarrow> True
       | _ \<Rightarrow> False)
      \<or> (is_tuple result \<and> (len result = 2 \<or> len result = 3)
          \<and> \<not> list_all is_LogicObject (tuple_elements result)))"

text \<open>
  Modelled from the spec: \<open>wrap_item_in_async_generator\<close> and \<open>asynchronize\<close> are not in
  the asynctools.py of the sources (which has \<open>wrap_item\<close>, an asynchronous generator that
  yields its argument): a single item becomes a stream of one element, and a synchronous
  iterable becomes an asynchronous one with the same elements.
\<close>

definition wrap_item_in_async_generator :: "pyval \<Rightarrow> pyval" where
  "wrap_item_in_async_generator item = AsyncIterable [item] None"

fun asynchronize :: "pyval \<Rightarrow> pyval" where
  "asynchronize (PyTuple xs) = AsyncIterable xs None"
| "asynchronize (Iterable xs e) = AsyncIterable xs e"
| "asynchronize v = v"

text \<open>\<open>async for item in result\<close>: TypeError for a value that is no asynchronous iterable.\<close>

fun async_for :: "pyval \<Rightarrow> error + pyval list \<times> error option" where
  "async_for (AsyncIterable xs e) = Inr (xs, e)"
| "async_for v = Inl TypeError"

text \<open>\<open>if isinstance(result, typing.Coroutine): result = await result\<close>\<close>

fun await_coroutine :: "pyval \<Rightarrow> error + pyval" where
  "await_coroutine (Coroutine r) = r"
| "await_coroutine v = Inr v"

text \<open>
  The branches on an item: the conclusion, the substitution and the premises (still to be
  iterated) it stands for, or the ValueError.
\<close>

fun item_fields :: "substitution \<Rightarrow> pyval \<Rightarrow> error + pyval \<times> pyval \<times> pyval" where
  "item_fields unifier (PyTuple [c, s]) = Inr (c, s, PyTuple [])"
| "item_fields unifier (PyTuple [c, s, p]) = Inr (c, s, if is_Proof p then PyTuple [p] else p)"
| "item_fields unifier (PyTuple xs) = Inl ValueError"
| "item_fields unifier (LogicObject t) = Inr (LogicObject t, SubstitutionV unifier, PyTuple [])"
| "item_fields unifier (FormulaSubstitution f s) = Inr (f, s, PyTuple [])"
| "item_fields unifier (FormulaSubstitutionPremises f s p) =
     Inr (f, s, if is_Proof p then PyTuple [p] else p)"
| "item_fields unifier v = Inl ValueError"

text \<open>
  One turn of the loop over the items. \<open>prf\<close> is the value of the variable \<open>proof\<close> when the
  turn starts: the loop assigns the proof it builds to that same variable.
\<close>

definition ponder_item ::
  "listener \<Rightarrow> pyval \<Rightarrow> substitution \<Rightarrow> proof_t \<Rightarrow> pyval \<Rightarrow> error + proof_t" where
  "ponder_item self formula unifier prf item =
     (case item_fields unifier item of
        Inl e \<Rightarrow> Inl e
      | Inr (c, s, ps) \<Rightarrow>
          (case iterate ps of
             Inl e \<Rightarrow> Inl e
           | Inr extra \<Rightarrow>
               Inr (Proof (Pondering (listener_id self) formula) c s (ProofV prf # extra))))"

fun ponder_loop ::
  "listener \<Rightarrow> pyval \<Rightarrow> substitution \<Rightarrow> proof_t \<Rightarrow> pyval list \<Rightarrow> error option \<Rightarrow> proof_t gen"
where
  "ponder_loop self formula unifier prf [] e =
     Gen [] (case e of None \<Rightarrow> Finished | Some x \<Rightarrow> Raised x)"
| "ponder_loop self formula unifier prf (item # rest) e =
     (case ponder_item self formula unifier prf item of
        Inl err \<Rightarrow> Gen [] (Raised err)
      | Inr prf' \<Rightarrow> yield_first prf' (ponder_loop self formula unifier prf' rest e))"

text \<open>What the handler's result is turned into before the loop.\<close>

definition prepare_result :: "pyval \<Rightarrow> pyval" where
  "prepare_result result =
     (let result = (if is_single_result result then wrap_item_in_async_generator result
                    else result)
      in if is_Iterable result then asynchronize result else result)"

text \<open>\<open>Listener.ponder\<close>\<close>

definition listener_ponder ::
  "logic \<Rightarrow> knowledge_base \<Rightarrow> listener \<Rightarrow> proof_t \<Rightarrow> proof_t gen" where
  "listener_ponder lg kb self prf =
     (let formula = conclusion prf in
      if is_hypothetical kb \<and> safety self = TOTALLY_UNSAFE
      then Gen [] (Raised UnsafeOperationException)
      else
        (case normalize_variables lg (listened_formula self) of
           (normalized_listened_formula, normalization_mapping) \<Rightarrow>
        (case unify lg formula (LogicObject normalized_listened_formula) (substitution prf) of
           Inl e \<Rightarrow> Gen [] (Raised e)
         | Inr None \<Rightarrow> Gen [] Finished
         | Inr (Some unifier) \<Rightarrow>
        (case extract_args_by_name lg (argument_mode self) formula unifier
                normalization_mapping of
           Inl e \<Rightarrow> (if e = ValueError then Gen [] Finished else Gen [] (Raised e))
         | Inr args_by_name \<Rightarrow>
        (case handler self args_by_name of
           Inl e \<Rightarrow> Gen [] (Raised e)
         | Inr result \<Rightarrow>
        (case await_coroutine result of
           Inl e \<Rightarrow> Gen [] (Raised e)
         | Inr result \<Rightarrow>
             if result = PyNone then Gen [] Finished
             else
               (case async_for (prepare_result result) of
                  Inl e \<Rightarrow> Gen [] (Raised e)
                | Inr (its, e) \<Rightarrow> ponder_loop self formula unifier prf its e)))))))"

subsection \<open>aitools/proofs/knowledge_base.py\<close>

text \<open>
  \<open>KnowledgeBase._retrieve\<close>: the loop over what the storage's \<open>search_unifiable\<close> gives.
\<close>

fun retrieve_loop :: "logic \<Rightarrow> pyval \<Rightarrow> pyval \<Rightarrow> trm list \<Rightarrow> pyval gen" where
  "retrieve_loop lg formula previous_substitution [] = Gen [] Finished"
| "retrieve_loop lg formula previous_substitution (expr # rest) =
     (case unify lg (LogicObject (fst (normalize_variables lg expr))) formula
             previous_substitution of
        Inl e \<Rightarrow> Gen [] (Raised e)
      | Inr None \<Rightarrow> retrieve_loop lg formula previous_substitution rest
      | Inr (Some subst) \<Rightarrow>
          yield_first (SubstitutionV subst)
            (retrieve_loop lg formula previous_substitution rest))"

definition retrieve :: "logic \<Rightarrow> knowledge_base \<Rightarrow> pyval \<Rightarrow> pyval \<Rightarrow> pyval gen" where
  "retrieve lg kb formula previous_substitution =
     retrieve_loop lg formula previous_substitution
       (search_unifiable lg (storage kb) formula)"

text \<open>
  \<open>KnowledgeBase.__make_knowledge_retriever\<close>. The handler \<open>retrieve_knowledge\<close> yields what
  \<open>_retrieve\<close> yields, reading the storage when it is called. The retriever's identity
  is 0.
\<close>

definition knowledge_retriever :: "logic \<Rightarrow> knowledge_base \<Rightarrow> prover" where
  "knowledge_retriever lg kb =
     \<lparr> prover_id = 0,
       prover_listened_formula = Variable (retriever_variable kb),
       prover_handler = (\<lambda>formula substitution. retrieve lg kb formula substitution),
       prover_argument_mode = RAW,
       prover_pure = False,
       prover_safety = SAFE \<rparr>"

text \<open>
  Modelled from the spec: \<open>Prover.prove\<close> is not among the sources. Every substitution
  that the handler yields gives one proof of the goal by this prover, with no premises
  (as \<open>KnowledgeRetriever.__call__\<close> of provers.py builds it).
\<close>

definition prover_prove :: "prover \<Rightarrow> pyval \<Rightarrow> pyval \<Rightarrow> proof_t gen" where
  "prover_prove p formula previous_substitution =
     (case prover_handler p formula previous_substitution of
        Gen substs e \<Rightarrow>
          Gen (map (\<lambda>subst. Proof (ProverRule (prover_id p)) formula subst []) substs) e)"

text \<open>
  Modelled from the spec: \<open>retrieve\<close> of the index gives every registered entry whose key
  answers the queried key, in the order of registration.
\<close>

definition index_retrieve :: "logic \<Rightarrow> (key \<times> 'a) list \<Rightarrow> key \<Rightarrow> 'a list" where
  "index_retrieve lg entries k = map snd (filter (\<lambda>entry. key_answers lg (fst entry) k) entries)"

definition get_provers_for :: "logic \<Rightarrow> knowledge_base \<Rightarrow> pyval \<Rightarrow> prover list" where
  "get_provers_for lg kb formula = index_retrieve lg (prover_storage kb) (make_key lg formula)"

definition get_listeners_for :: "logic \<Rightarrow> knowledge_base \<Rightarrow> pyval \<Rightarrow> listener list" where
  "get_listeners_for lg kb formula =
     index_retrieve lg (listener_storage kb) (make_key lg formula)"

definition add_prover :: "logic \<Rightarrow> prover \<Rightarrow> knowledge_base \<Rightarrow> knowledge_base" where
  "add_prover lg p kb =
     kb\<lparr>prover_storage :=
          prover_storage kb @ [(make_key lg (LogicObject (prover_listened_formula p)), p)]\<rparr>"

definition add_listener :: "logic \<Rightarrow> listener \<Rightarrow> knowledge_base \<Rightarrow> knowledge_base" where
  "add_listener lg l kb =
     kb\<lparr>listener_storage :=
          listener_storage kb @ [(make_key lg (LogicObject (listened_formula l)), l)]\<rparr>"

text \<open>
  \<open>KnowledgeBase.__init__\<close> with the variable made for the retriever and the loop of the new
  scheduler, and \<open>add_formulas\<close>, which stores the normalized formulas.
\<close>

definition new_knowledge_base :: "nat \<Rightarrow> nat \<Rightarrow> knowledge_base" where
  "new_knowledge_base v l =
     \<lparr> storage = [], retriever_variable = v, prover_storage = [], listener_storage = [],
       scheduler = l \<rparr>"

definition add_formulas :: "logic \<Rightarrow> trm list \<Rightarrow> knowledge_base \<Rightarrow> knowledge_base" where
  "add_formulas lg formulas kb =
     kb\<lparr>storage := storage kb @ map (\<lambda>f. fst (normalize_variables lg f)) formulas\<rparr>"

text \<open>
  \<open>KnowledgeBase._prepare_proof_sources\<close>: the list \<open>proof_sources\<close>, then its multiplex.
  The previous substitution is an \<open>Optional[Substitution]\<close>;
  \<open>previous_substitution or Substitution()\<close> replaces None by the empty substitution.
\<close>

definition proof_sources ::
  "logic \<Rightarrow> knowledge_base \<Rightarrow> pyval \<Rightarrow> bool \<Rightarrow> substitution option \<Rightarrow> proof_t gen list"
where
  "proof_sources lg kb formula retrieve_only previous_substitution =
     (let previous_substitution =
            (case previous_substitution of
               None \<Rightarrow> SubstitutionV []
             | Some s \<Rightarrow> SubstitutionV s)
      in prover_prove (knowledge_retriever lg kb) formula previous_substitution
         # (if \<not> retrieve_only
            then map (\<lambda>p. prover_prove p formula previous_substitution)
                     (get_provers_for lg kb formula)
            else []))"

definition prepare_proof_sources ::
  "logic \<Rightarrow> knowledge_base \<Rightarrow> pyval \<Rightarrow> bool \<Rightarrow> substitution option \<Rightarrow> proof_t gen list"
where
  "prepare_proof_sources lg kb formula retrieve_only previous_substitution =
     multiplex (proof_sources lg kb formula retrieve_only previous_substitution)"

text \<open>
  \<open>KnowledgeBase.prove\<close>, called from \<open>ctx\<close>: every behaviour of the generator it returns.
\<close>

definition prove ::
  "logic \<Rightarrow> knowledge_base \<Rightarrow> caller \<Rightarrow> pyval \<Rightarrow> bool \<Rightarrow> substitution option \<Rightarrow>
   proof_t gen list"
where
  "prove lg kb ctx formula retrieve_only previous_substitution =
     (if is_inside_task ctx then [Gen [] (Raised RuntimeError)]
      else map schedule_generator
             (prepare_proof_sources lg kb formula retrieve_only previous_substitution))"

definition async_prove ::
  "logic \<Rightarrow> knowledge_base \<Rightarrow> caller \<Rightarrow> pyval \<Rightarrow> bool \<Rightarrow> substitution option \<Rightarrow>
   proof_t gen list"
where
  "async_prove lg kb ctx formula retrieve_only previous_substitution =
     (if \<not> is_inside_task ctx then [Gen [] (Raised RuntimeError)]
      else prepare_proof_sources lg kb formula retrieve_only previous_substitution)"

text \<open>
  The multiplex of generators each of which has several behaviours: one behaviour is
  chosen for each.
\<close>

definition multiplex_any :: "'a gen list list \<Rightarrow> 'a gen list" where
  "multiplex_any generators = remdups (concat (map multiplex (product_lists generators)))"

text \<open>
  \<open>KnowledgeBase.__make_proving_process\<close>. The asynchronous generators it builds run in
  tasks of the scheduler's loop.
\<close>

definition make_proving_process ::
  "logic \<Rightarrow> knowledge_base \<Rightarrow> pyval list \<Rightarrow> ponder_mode \<Rightarrow> error + proof_t gen list" where
  "make_proving_process lg kb formulas mode =
     (if mode = HYPOTHETICALLY then Inl NotImplementedError
      else if mode = KNOWN then
        Inr (multiplex_any
               (map (\<lambda>f. async_prove lg kb (InTask (scheduler kb)) f True None) formulas))
      else if mode = PROVE then
        Inr (multiplex_any
               (map (\<lambda>f. async_prove lg kb (InTask (scheduler kb)) f False None) formulas))
      else Inl NotImplementedError)"

text \<open>
  \<open>KnowledgeBase.__ponder_single_proof\<close>: the behaviours of \<open>pondering_process\<close>, whose
  elements it pushes to the queue, or the exception of \<open>apply_to\<close>.
\<close>

definition trigger_premise :: "pyval \<Rightarrow> proof_t \<Rightarrow> proof_t" where
  "trigger_premise c prf = Proof TriggeringFormula c (substitution prf) [ProofV prf]"

definition ponder_single_proof ::
  "logic \<Rightarrow> knowledge_base \<Rightarrow> proof_t \<Rightarrow> error + proof_t gen list" where
  "ponder_single_proof lg kb prf =
     (case get_listeners_for lg kb (conclusion prf) of
        [] \<Rightarrow> Inr (multiplex [])
      | l # ls \<Rightarrow>
          (case apply_to lg (substitution prf) (conclusion prf) of
             Inl e \<Rightarrow> Inl e
           | Inr c \<Rightarrow>
               Inr (multiplex
                      (map (\<lambda>listener. listener_ponder lg kb listener (trigger_premise c prf))
                           (l # ls)))))"

text \<open>
  Modelled from the spec: \<open>process_with_loopback\<close> is not among the sources. Every element
  of the input sequence is given to the processor; what a processor pushes is yielded,
  in the order it was pushed, and given to the processor in its turn (the loopback).
  \<open>pending\<close> holds, for the input and for every call of the processor, what is still to
  be taken from it; an element is marked when it is to be yielded (the input is not).
  Which of them is served next is not determined; an exception of the processor ends the
  generator. The first argument bounds the number of elements taken: None when it does
  not suffice.
\<close>

fun loopback ::
  "nat \<Rightarrow> (proof_t \<Rightarrow> error + proof_t gen list) \<Rightarrow> ending \<Rightarrow> (bool \<times> proof_t) list list \<Rightarrow>
   proof_t gen list option"
where
  "loopback 0 processor final pending = None"
| "loopback (Suc n) processor final pending =
     (if list_all (\<lambda>source. source = []) pending then Some [Gen [] final]
      else
        map_option concat (those (map
          (\<lambda>i. case pending ! i of
                 [] \<Rightarrow> Some []
               | (yielded, x) # rest \<Rightarrow>
                   (case processor x of
                      Inl e \<Rightarrow> Some [Gen (if yielded then [x] else []) (Raised e)]
                    | Inr derived \<Rightarrow>
                        map_option
                          (\<lambda>runs. map (\<lambda>g. if yielded then yield_first x g else g) (concat runs))
                          (those (map
                             (\<lambda>d. loopback n processor final
                                    (pending[i := rest] @ [map (Pair True) (items d)]))
                             derived))))
          [0..<length pending])))"

definition process_with_loopback ::
  "nat \<Rightarrow> proof_t gen \<Rightarrow> (proof_t \<Rightarrow> error + proof_t gen list) \<Rightarrow> proof_t gen list option"
where
  "process_with_loopback n input_sequence processor =
     loopback n processor (ending input_sequence) [map (Pair False) (items input_sequence)]"

text \<open>
  \<open>KnowledgeBase.ponder\<close>: every behaviour of the generator it returns, when \<open>n\<close> elements
  suffice. The exception of \<open>__make_proving_process\<close> is raised in the calling thread,
  before anything is scheduled.
\<close>

definition ponder ::
  "logic \<Rightarrow> knowledge_base \<Rightarrow> nat \<Rightarrow> pyval list \<Rightarrow> ponder_mode \<Rightarrow> proof_t gen list option"
where
  "ponder lg kb n formulas mode =
     (case make_proving_process lg kb formulas mode of
        Inl e \<Rightarrow> Some [Gen [] (Raised e)]
      | Inr proving_process \<Rightarrow>
          map_option (\<lambda>runs. remdups (map schedule_generator (concat runs)))
            (those (map (\<lambda>input_sequence.
                           process_with_loopback n input_sequence (ponder_single_proof lg kb))
                        proving_process)))"

section \<open>The logic of the spec\<close>

text \<open>
  Modelled from the spec: \<open>substitution.apply_to\<close> (section 4.2 of the spec) rewrites
  every variable by what it is bound to, again and again. A chain of bindings without a
  cycle is no longer than the substitution, which bounds the number of rewritings.
\<close>

fun subst_apply :: "nat \<Rightarrow> substitution \<Rightarrow> trm \<Rightarrow> trm" where
  "subst_apply n s (Variable v) =
     (case n of
        0 \<Rightarrow> Variable v
      | Suc m \<Rightarrow> (case map_of s v of None \<Rightarrow> Variable v | Some t \<Rightarrow> subst_apply m s t))"
| "subst_apply n s (Expression ts) = Expression (map (subst_apply n s) ts)"
| "subst_apply n s t = t"

definition spec_apply :: "substitution \<Rightarrow> trm \<Rightarrow> trm" where
  "spec_apply s t = subst_apply (length s) s t"

text \<open>Modelled from the spec: \<open>get_bound_object_for\<close>, the representative of a variable.\<close>

fun resolve :: "nat \<Rightarrow> substitution \<Rightarrow> trm \<Rightarrow> trm" where
  "resolve n s (Variable v) =
     (case n of
        0 \<Rightarrow> Variable v
      | Suc m \<Rightarrow> (case map_of s v of None \<Rightarrow> Variable v | Some t \<Rightarrow> resolve m s t))"
| "resolve n s t = t"

text \<open>Modelled from the spec: the occurs check, whether a variable is in a term.\<close>

fun occurs :: "nat \<Rightarrow> trm \<Rightarrow> bool" where
  "occurs v (Variable w) = (v = w)"
| "occurs v (Expression ts) = list_ex (occurs v) ts"
| "occurs v t = False"

text \<open>
  Modelled from the spec: \<open>Substitution.unify\<close> (section 4.1 of the spec), over the pairs
  of terms still to be unified: resolve both, the same term needs nothing, a variable is
  bound unless it occurs in the other term, expressions of the same arity give their
  children pairwise, anything else fails (Some None). The first argument bounds the
  number of pairs looked at (None when it does not suffice).
\<close>

fun unify_pairs ::
  "nat \<Rightarrow> (trm \<times> trm) list \<Rightarrow> substitution \<Rightarrow> substitution option option" where
  "unify_pairs n [] s = Some (Some s)"
| "unify_pairs 0 (ab # work) s = None"
| "unify_pairs (Suc n) ((a, b) # work) s =
     (let a' = resolve (length s) s a; b' = resolve (length s) s b in
      if a' = b' then unify_pairs n work s
      else
        (case a' of
           Variable v \<Rightarrow>
             if occurs v (spec_apply s b') then Some None
             else unify_pairs n work ((v, b') # s)
         | Expression as \<Rightarrow>
             (case b' of
                Variable w \<Rightarrow>
                  if occurs w (spec_apply s a') then Some None
                  else unify_pairs n work ((w, a') # s)
              | Expression bs \<Rightarrow>
                  if length as \<noteq> length bs then Some None
                  else unify_pairs n (zip as bs @ work) s
              | _ \<Rightarrow> Some None)
         | _ \<Rightarrow>
             (case b' of
                Variable w \<Rightarrow> unify_pairs n work ((w, a') # s)
              | _ \<Rightarrow> Some None)))"

text \<open>
  Modelled from the spec: \<open>Substitution.unify\<close> and \<open>apply_to\<close> on Python values. Python
  ends a recursion deeper than its limit with RecursionError, a RuntimeError; a value that
  is no term or no substitution gives TypeError here.
\<close>

definition recursion_limit :: nat where
  "recursion_limit = 1000"

fun spec_unify :: "pyval \<Rightarrow> pyval \<Rightarrow> pyval \<Rightarrow> error + substitution option" where
  "spec_unify (LogicObject a) (LogicObject b) (SubstitutionV s) =
     (case unify_pairs recursion_limit [(a, b)] s of
        None \<Rightarrow> Inl RuntimeError
      | Some r \<Rightarrow> Inr r)"
| "spec_unify (LogicObject a) (LogicObject b) PyNone =
     (case unify_pairs recursion_limit [(a, b)] [] of
        None \<Rightarrow> Inl RuntimeError
      | Some r \<Rightarrow> Inr r)"
| "spec_unify a b s = Inl TypeError"

fun spec_apply_to :: "pyval \<Rightarrow> pyval \<Rightarrow> error + pyval" where
  "spec_apply_to (SubstitutionV s) (LogicObject t) = Inr (LogicObject (spec_apply s t))"
| "spec_apply_to s t = Inl TypeError"

text \<open>
  Modelled from the spec: \<open>normalize_variables\<close> replaces every variable by a fresh one,
  the same variable by the same fresh one, and returns the mapping. The fresh variable
  for \<open>v\<close> is taken to be \<open>fresh_variable v\<close>; that no other term holds it is not tracked.
\<close>

definition fresh_variable :: "nat \<Rightarrow> nat" where
  "fresh_variable v = 2 * v + 1"

fun variables_of :: "trm \<Rightarrow> nat list" where
  "variables_of (Variable v) = [v]"
| "variables_of (Expression ts) = concat (map variables_of ts)"
| "variables_of t = []"

fun rename_variables :: "trm \<Rightarrow> trm" where
  "rename_variables (Variable v) = Variable (fresh_variable v)"
| "rename_variables (Expression ts) = Expression (map rename_variables ts)"
| "rename_variables t = t"

definition spec_normalize_variables :: "trm \<Rightarrow> trm \<times> (nat \<times> nat) list" where
  "spec_normalize_variables t =
     (rename_variables t, map (\<lambda>v. (v, fresh_variable v)) (remdups (variables_of t)))"

text \<open>
  Modelled from the spec: the argument modes of section 6 of the spec. A mode that refuses
  raises the ValueError that \<open>Listener.ponder\<close> catches.
\<close>

fun is_Variable :: "trm \<Rightarrow> bool" where
  "is_Variable (Variable v) = True"
| "is_Variable t = False"

fun is_Wrapper :: "trm \<Rightarrow> bool" where
  "is_Wrapper (Wrapper w) = True"
| "is_Wrapper t = False"

fun unwrap :: "trm \<Rightarrow> pyval" where
  "unwrap (Wrapper w) = PyObject w"
| "unwrap t = LogicObject t"

definition spec_extract_args_by_name ::
  "handler_argument_mode \<Rightarrow> pyval \<Rightarrow> substitution \<Rightarrow> (nat \<times> nat) list \<Rightarrow> error + handler_args"
where
  "spec_extract_args_by_name mode formula unifier normalization_mapping =
     (if mode = RAW then Inr (Raw formula unifier)
      else
        (let bound = map (\<lambda>(v, v'). (v, spec_apply unifier (Variable v'))) normalization_mapping
         in if (mode = MAP_NO_VARIABLES \<or> mode = MAP_UNWRAPPED_NO_VARIABLES)
               \<and> list_ex (\<lambda>(v, t). is_Variable t) bound
            then Inl ValueError
            else if mode = MAP_UNWRAPPED_REQUIRED \<and> list_ex (\<lambda>(v, t). \<not> is_Wrapper t) bound
            then Inl ValueError
            else if mode = MAP \<or> mode = MAP_NO_VARIABLES
            then Inr (ByName (map (\<lambda>(v, t). (v, LogicObject t)) bound))
            else Inr (ByName (map (\<lambda>(v, t). (v, unwrap t)) bound))))"

text \<open>
  Modelled from the spec: \<open>make_key\<close> and the test of the index (section 4.3 of the spec): a
  wildcard answers anything and is answered by anything, a specific key answers its peer.
\<close>

fun term_key :: "trm \<Rightarrow> key" where
  "term_key (Variable v) = Wildcard"
| "term_key (Expression ts) = Seq (map term_key ts)"
| "term_key t = Atom t"

fun spec_make_key :: "pyval \<Rightarrow> key" where
  "spec_make_key (LogicObject t) = term_key t"
| "spec_make_key v = NoKey"

fun spec_key_answers :: "key \<Rightarrow> key \<Rightarrow> bool"
and spec_keys_answer :: "key list \<Rightarrow> key list \<Rightarrow> bool" where
  "spec_key_answers NoKey k = False"
| "spec_key_answers k NoKey = False"
| "spec_key_answers Wildcard k = True"
| "spec_key_answers k Wildcard = True"
| "spec_key_answers (Atom a) (Atom b) = (a = b)"
| "spec_key_answers (Seq ks) (Seq qs) = spec_keys_answer ks qs"
| "spec_key_answers k q = False"
| "spec_keys_answer [] [] = True"
| "spec_keys_answer (k # ks) (q # qs) = (spec_key_answers k q \<and> spec_keys_answer ks qs)"
| "spec_keys_answer ks qs = False"

text \<open>
  Modelled from the spec: the storage's \<open>search_unifiable\<close> gives candidates, a superset of
  the stored formulas that unify; the trivial storage gives every stored formula.
\<close>

definition spec_search_unifiable :: "trm list \<Rightarrow> pyval \<Rightarrow> trm list" where
  "spec_search_unifiable stored other = stored"

text \<open>Modelled from the spec: the functions above, as the missing modules.\<close>

definition spec_logic :: logic where
  "spec_logic =
     \<lparr> unify = spec_unify,
       apply_to = spec_apply_to,
       normalize_variables = spec_normalize_variables,
       extract_args_by_name = spec_extract_args_by_name,
       make_key = spec_make_key,
       key_answers = spec_key_answers,
       search_unifiable = spec_search_unifiable \<rparr>"

section \<open>Scenarios\<close>

text \<open>The formula \<open>P(x)\<close> for a constant \<open>P\<close>.\<close>

definition pred :: "string \<Rightarrow> trm \<Rightarrow> trm" where
  "pred name x = Expression [Constant name, x]"

text \<open>
  The handler \<open>def deduce(_x): return P(_x)\<close> of the tests: called with the one keyword
  argument, it returns \<open>P\<close> of it.
\<close>

definition deduce :: "string \<Rightarrow> handler_args \<Rightarrow> error + pyval" where
  "deduce name args =
     (case args of
        ByName [(v, LogicObject x)] \<Rightarrow> Inr (LogicObject (pred name x))
      | _ \<Rightarrow> Inl TypeError)"

text \<open>A listener to \<open>from(x)\<close> that deduces \<open>to(x)\<close>, as the tests make them (mode MAP).\<close>

definition deducing_listener :: "nat \<Rightarrow> trm \<Rightarrow> string \<Rightarrow> listener" where
  "deducing_listener i formula to =
     \<lparr> listener_id = i, listened_formula = formula, handler = deduce to,
       argument_mode = MAP, pure = True, safety = SAFE \<rparr>"

text \<open>
  \<open>test_listener_chain\<close>: the listeners B to C, A to B and C to D, registered in this
  order, and the formula \<open>A(foo)\<close>.
\<close>

definition chain_kb :: knowledge_base where
  "chain_kb =
     add_formulas spec_logic [pred ''A'' (Constant ''foo'')]
       (add_listener spec_logic (deducing_listener 3 (pred ''C'' (Variable 0)) ''D'')
         (add_listener spec_logic (deducing_listener 2 (pred ''A'' (Variable 0)) ''B'')
           (add_listener spec_logic (deducing_listener 1 (pred ''B'' (Variable 0)) ''C'')
             (new_knowledge_base 100 7))))"

text \<open>The formula \<open>Is(x, y)\<close> and the constants of the tests about cats.\<close>

definition Is :: "trm \<Rightarrow> trm \<Rightarrow> trm" where
  "Is x y = Expression [Constant ''Is'', x, y]"

definition cat :: trm where
  "cat = Constant ''cat''"

definition dylan :: trm where
  "dylan = Constant ''dylan''"

text \<open>
  \<open>test_listener_exceptions_make_the_whole_thing_fail\<close>: a listener that deduces
  \<open>Meows(x)\<close> from \<open>Is(x, cat)\<close>, one whose handler raises SomeException, and the formula
  \<open>Is(dylan, cat)\<close>.
\<close>

definition succeeding :: listener where
  "succeeding = (deducing_listener 1 (Is (Variable 0) cat) ''Meows'')\<lparr>safety := TOTALLY_UNSAFE\<rparr>"

definition failing :: listener where
  "failing =
     \<lparr> listener_id = 2, listened_formula = Is (Variable 0) cat,
       handler = (\<lambda>args. Inl (UserException ''SomeException'')),
       argument_mode = MAP, pure = True, safety = TOTALLY_UNSAFE \<rparr>"

definition exceptions_kb :: knowledge_base where
  "exceptions_kb =
     add_formulas spec_logic [Is dylan cat]
       (add_listener spec_logic failing
         (add_listener spec_logic succeeding (new_knowledge_base 100 7)))"

text \<open>
  \<open>test_listener_multiple_formulas_returned\<close>: the handler returns the tuple
  \<open>(Meows(x), Purrs(x))\<close>. \<open>a_trigger\<close> is the premise that \<open>__ponder_single_proof\<close> builds
  from the retriever's proof of \<open>Is(dylan, cat)\<close>.
\<close>

definition deduce_meow_and_purr :: "handler_args \<Rightarrow> error + pyval" where
  "deduce_meow_and_purr args =
     (case args of
        ByName [(v, LogicObject x)] \<Rightarrow>
          Inr (PyTuple [LogicObject (pred ''Meows'' x), LogicObject (pred ''Purrs'' x)])
      | _ \<Rightarrow> Inl TypeError)"

definition meow_and_purr :: listener where
  "meow_and_purr =
     \<lparr> listener_id = 1, listened_formula = Is (Variable 0) cat,
       handler = deduce_meow_and_purr,
       argument_mode = MAP, pure = True, safety = SAFE \<rparr>"

definition a_trigger :: proof_t where
  "a_trigger =
     trigger_premise (LogicObject (Is dylan cat))
       (Proof (ProverRule 0) (LogicObject (Is dylan cat)) (SubstitutionV []) [])"

definition meows_proof :: proof_t where
  "meows_proof =
     Proof (Pondering 1 (LogicObject (Is dylan cat))) (LogicObject (pred ''Meows'' dylan))
       (SubstitutionV [(1, dylan)]) [ProofV a_trigger]"

text \<open>
  The unifier of the normalized form of a stored formula with the goal under the previous
  substitution, when they unify: the words of the spec about the knowledge retriever.
\<close>

definition stored_unifier :: "logic \<Rightarrow> pyval \<Rightarrow> pyval \<Rightarrow> trm \<Rightarrow> substitution option" where
  "stored_unifier lg formula previous_substitution expr =
     (case unify lg (LogicObject (fst (normalize_variables lg expr))) formula
             previous_substitution of
        Inr (Some subst) \<Rightarrow> Some subst
      | _ \<Rightarrow> None)"

definition hugo :: trm where
  "hugo = Constant ''hugo''"

text \<open>A knowledge base that knows two cats and a dog.\<close>

definition cats_kb :: knowledge_base where
  "cats_kb =
     add_formulas spec_logic [Is dylan cat, Is hugo (Constant ''dog''), Is hugo cat]
       (new_knowledge_base 100 7)"

text \<open>
  A handler that returns the pair of \<open>Meows(x)\<close> and an empty substitution.
\<close>

definition deduce_meow_pair :: "handler_args \<Rightarrow> error + pyval" where
  "deduce_meow_pair args =
     (case args of
        ByName [(v, LogicObject x)] \<Rightarrow>
          Inr (PyTuple [LogicObject (pred ''Meows'' x), SubstitutionV []])
      | _ \<Rightarrow> Inl TypeError)"

definition meow_pair :: listener where
  "meow_pair =
     \<lparr> listener_id = 2, listened_formula = Is (Variable 0) cat,
       handler = deduce_meow_pair,
       argument_mode = MAP, pure = True, safety = SAFE \<rparr>"

text \<open>
  The tests of the argument modes: a listener to \<open>Are(first_cat, second_cat, cat)\<close> whose
  handler records its two arguments and returns None, and the premise built from the
  retriever's proof of \<open>Are(x, y, cat)\<close>.
\<close>

definition Are :: "trm \<Rightarrow> trm \<Rightarrow> trm \<Rightarrow> trm" where
  "Are x y z = Expression [Constant ''Are'', x, y, z]"

definition two_cats_handler :: "handler_args \<Rightarrow> error + pyval" where
  "two_cats_handler args =
     (case args of
        ByName [(v, first_cat), (w, second_cat)] \<Rightarrow> Inr PyNone
      | _ \<Rightarrow> Inl TypeError)"

definition two_cats_listener :: "handler_argument_mode \<Rightarrow> listener" where
  "two_cats_listener mode =
     \<lparr> listener_id = 1, listened_formula = Are (Variable 0) (Variable 1) cat,
       handler = two_cats_handler,
       argument_mode = mode, pure = True, safety = TOTALLY_UNSAFE \<rparr>"

definition are_trigger :: "trm \<Rightarrow> trm \<Rightarrow> proof_t" where
  "are_trigger x y =
     trigger_premise (LogicObject (Are x y cat))
       (Proof (ProverRule 0) (LogicObject (Are x y cat)) (SubstitutionV []) [])"


text \<open>
  A listener is fired by a proof when its normalized listened formula unifies with the
  conclusion under the proof's substitution, the arguments are extracted and the handler
  returns: \<open>fired lg l p unifier result\<close> with the unifier and what the handler returns.
\<close>

definition fired ::
  "logic \<Rightarrow> listener \<Rightarrow> proof_t \<Rightarrow> substitution \<Rightarrow> pyval \<Rightarrow> bool" where
  "fired lg l p unifier result =
     (case normalize_variables lg (listened_formula l) of
        (normalized_listened_formula, normalization_mapping) \<Rightarrow>
          unify lg (conclusion p) (LogicObject normalized_listened_formula) (substitution p)
            = Inr (Some unifier)
          \<and> (case extract_args_by_name lg (argument_mode l) (conclusion p) unifier
                     normalization_mapping of
                Inl e \<Rightarrow> False
              | Inr args_by_name \<Rightarrow> handler l args_by_name = Inr result))"


section \<open>Properties\<close>

subsection \<open>The safety gate\<close>

lemma ponder_item_safety:
  "ponder_item (l\<lparr>safety := a\<rparr>) formula unifier p item =
   ponder_item (l\<lparr>safety := b\<rparr>) formula unifier p item"
  by (simp add: ponder_item_def split: sum.splits prod.splits)

lemma ponder_loop_safety:
  "ponder_loop (l\<lparr>safety := a\<rparr>) formula unifier p its e =
   ponder_loop (l\<lparr>safety := b\<rparr>) formula unifier p its e"
proof (induction its arbitrary: p)
  case Nil
  show ?case by simp
next
  case (Cons item rest)
  show ?case
    using Cons.IH ponder_item_safety [where l = l and a = a and b = b]
    by (simp split: sum.splits)
qed

text \<open>
  C8: \<open>is_hypothetical\<close> is always false, so the safety gate does nothing: a listener
  ponders a proof the same way whether its safety is TOTALLY_UNSAFE or SAFE, and the
  condition under which UnsafeOperationException is raised never holds.
\<close>

theorem safety_gate_is_noop:
  "listener_ponder lg kb (l\<lparr>safety := TOTALLY_UNSAFE\<rparr>) p =
     listener_ponder lg kb (l\<lparr>safety := SAFE\<rparr>) p
   \<and> \<not> (is_hypothetical kb \<and> safety l = TOTALLY_UNSAFE)"
  using ponder_loop_safety [where l = l and a = TOTALLY_UNSAFE and b = SAFE]
  by (simp add: listener_ponder_def is_hypothetical_def Let_def
           split: prod.splits sum.splits option.splits)

subsection \<open>Ponder modes\<close>

text \<open>
  C5: pondering in the mode HYPOTHETICALLY raises NotImplementedError, and so does
  pondering in a mode that is none of KNOWN, PROVE and HYPOTHETICALLY; the generator
  yields no proof before.
\<close>

theorem ponder_unimplemented_modes:
  "ponder lg kb n formulas HYPOTHETICALLY = Some [Gen [] (Raised NotImplementedError)]
   \<and> ponder lg kb n formulas (NotAPonderMode m) = Some [Gen [] (Raised NotImplementedError)]"
  by (simp add: ponder_def make_proving_process_def)

text \<open>
  C3: the proof stream of \<open>prove\<close> is the multiplex of the stream of the knowledge
  retriever and, when \<open>retrieve_only\<close> is false and only then, of one stream for each
  prover that the index gives for the key of the goal. In the mode KNOWN every formula is
  proved by the knowledge retriever alone; in the mode PROVE by the retriever and the
  provers of the index.
\<close>

theorem proof_streams:
  "prepare_proof_sources lg kb formula retrieve_only previous_substitution =
     multiplex
       (prover_prove (knowledge_retriever lg kb) formula
          (SubstitutionV (case previous_substitution of None \<Rightarrow> [] | Some s \<Rightarrow> s))
        # (if retrieve_only then []
           else map (\<lambda>p. prover_prove p formula
                           (SubstitutionV
                              (case previous_substitution of None \<Rightarrow> [] | Some s \<Rightarrow> s)))
                  (index_retrieve lg (prover_storage kb) (make_key lg formula))))
   \<and> make_proving_process lg kb formulas KNOWN =
       Inr (multiplex_any
              (map (\<lambda>f. multiplex [prover_prove (knowledge_retriever lg kb) f (SubstitutionV [])])
                   formulas))
   \<and> make_proving_process lg kb formulas PROVE =
       Inr (multiplex_any
              (map (\<lambda>f. multiplex
                          (prover_prove (knowledge_retriever lg kb) f (SubstitutionV [])
                           # map (\<lambda>p. prover_prove p f (SubstitutionV []))
                               (index_retrieve lg (prover_storage kb) (make_key lg f))))
                   formulas))"
  by (simp add: prepare_proof_sources_def proof_sources_def make_proving_process_def
        async_prove_def is_inside_task_def get_provers_for_def Let_def
      split: option.splits)

subsection \<open>The knowledge retriever\<close>

lemma retrieve_loop_unifiers:
  assumes "list_all (\<lambda>expr. \<not> isl (unify lg (LogicObject (fst (normalize_variables lg expr)))
                                  formula prev)) cands"
  shows "retrieve_loop lg formula prev cands =
           Gen (map SubstitutionV (List.map_filter (stored_unifier lg formula prev) cands))
               Finished"
  using assms
proof (induction cands)
  case Nil
  show ?case by (simp add: List.map_filter_simps)
next
  case (Cons expr rest)
  then have IH: "retrieve_loop lg formula prev rest =
           Gen (map SubstitutionV (List.map_filter (stored_unifier lg formula prev) rest))
               Finished"
    by simp
  from Cons.prems obtain r where
    r: "unify lg (LogicObject (fst (normalize_variables lg expr))) formula prev = Inr r"
    by (cases "unify lg (LogicObject (fst (normalize_variables lg expr))) formula prev") auto
  have su: "stored_unifier lg formula prev expr = r"
    using r by (simp add: stored_unifier_def split: option.splits)
  show ?case
  proof (cases r)
    case None
    with r IH su show ?thesis
      by (simp add: List.map_filter_simps)
  next
    case (Some subst)
    with r IH su show ?thesis
      by (simp add: List.map_filter_simps yield_first_def)
  qed
qed

text \<open>
  C1: the knowledge retriever listens to a single variable (the one made for it) and is
  not pure; for every goal and previous substitution its stream holds exactly one proof
  for each stored formula whose normalized form unifies with the goal under the previous
  substitution, in the order of the store, and so every stored formula that unifies is
  in a proof of the retriever. The storage's \<open>search_unifiable\<close> is taken to give
  candidates among which the stored formulas that unify are all found, and \<open>unify\<close> not
  to raise on them.
\<close>

theorem knowledge_retriever_complete:
  assumes no_raise:
      "list_all (\<lambda>expr. \<not> isl (unify lg (LogicObject (fst (normalize_variables lg expr)))
                                  formula prev))
         (search_unifiable lg (storage kb) formula)"
    and superset:
      "filter (\<lambda>expr. stored_unifier lg formula prev expr \<noteq> None)
         (search_unifiable lg (storage kb) formula)
       = filter (\<lambda>expr. stored_unifier lg formula prev expr \<noteq> None) (storage kb)"
  shows "prover_listened_formula (knowledge_retriever lg kb) = Variable (retriever_variable kb)
     \<and> \<not> prover_pure (knowledge_retriever lg kb)
     \<and> prover_prove (knowledge_retriever lg kb) formula prev =
         Gen (map (\<lambda>subst. Proof (ProverRule 0) formula (SubstitutionV subst) [])
                  (List.map_filter (stored_unifier lg formula prev) (storage kb)))
             Finished
     \<and> (\<forall>expr \<in> set (storage kb). \<forall>subst.
           stored_unifier lg formula prev expr = Some subst \<longrightarrow>
           Proof (ProverRule 0) formula (SubstitutionV subst) []
             \<in> set (items (prover_prove (knowledge_retriever lg kb) formula prev)))"
proof -
  have same: "List.map_filter (stored_unifier lg formula prev)
                (search_unifiable lg (storage kb) formula)
              = List.map_filter (stored_unifier lg formula prev) (storage kb)"
    using superset by (simp add: List.map_filter_def)
  have stream: "prover_prove (knowledge_retriever lg kb) formula prev =
         Gen (map (\<lambda>subst. Proof (ProverRule 0) formula (SubstitutionV subst) [])
                  (List.map_filter (stored_unifier lg formula prev) (storage kb)))
             Finished"
    using retrieve_loop_unifiers [OF no_raise] same
    by (simp add: prover_prove_def knowledge_retriever_def retrieve_def comp_def)
  have "\<And>expr subst. expr \<in> set (storage kb) \<Longrightarrow> stored_unifier lg formula prev expr = Some subst
        \<Longrightarrow> subst \<in> set (List.map_filter (stored_unifier lg formula prev) (storage kb))"
    by (force simp: List.map_filter_def)
  then show ?thesis
    using stream by (auto simp: knowledge_retriever_def)
qed

theorem knowledge_retriever_complete_witness:
  "prover_prove (knowledge_retriever spec_logic cats_kb) (LogicObject (Is (Variable 0) cat))
     (SubstitutionV [])
   = Gen [Proof (ProverRule 0) (LogicObject (Is (Variable 0) cat)) (SubstitutionV [(0, dylan)]) [],
          Proof (ProverRule 0) (LogicObject (Is (Variable 0) cat)) (SubstitutionV [(0, hugo)]) []]
         Finished"
proof -
  let ?q = "LogicObject (Is (Variable 0) cat)"
  have h1: "list_all (\<lambda>expr. \<not> isl (unify spec_logic
                (LogicObject (fst (normalize_variables spec_logic expr))) ?q (SubstitutionV [])))
              (search_unifiable spec_logic (storage cats_kb) ?q)"
    by code_simp
  have h2: "filter (\<lambda>expr. stored_unifier spec_logic ?q (SubstitutionV []) expr \<noteq> None)
              (search_unifiable spec_logic (storage cats_kb) ?q)
            = filter (\<lambda>expr. stored_unifier spec_logic ?q (SubstitutionV []) expr \<noteq> None)
                (storage cats_kb)"
    by (simp add: spec_logic_def spec_search_unifiable_def)
  have h3: "List.map_filter (stored_unifier spec_logic ?q (SubstitutionV [])) (storage cats_kb)
            = [[(0, dylan)], [(0, hugo)]]"
    by code_simp
  show ?thesis
    using knowledge_retriever_complete [OF h1 h2] h3 by simp
qed

subsection \<open>Exceptions\<close>

lemma schedule_loop_never_raises: "ending (schedule_loop queue) \<noteq> Raised e"
proof (induction queue rule: schedule_loop.induct)
  case 1
  show ?case by simp
next
  case (2 queue)
  show ?case by simp
next
  case (3 el queue)
  then show ?case by (simp add: yield_first_def)
qed

lemma schedule_generator_never_raises: "ending (schedule_generator g) \<noteq> Raised e"
  by (simp add: schedule_generator_def schedule_loop_never_raises)

lemma multiplex_loop_never_raises: "ending (multiplex_loop n queue) \<noteq> Raised e"
proof (induction n queue rule: multiplex_loop.induct)
  case (4 n res queue)
  then show ?case by (simp add: yield_first_def)
qed simp_all

lemma multiplex_never_raises: "g \<in> set (multiplex generators) \<Longrightarrow> ending g \<noteq> Raised e"
  by (auto simp: multiplex_def multiplex_loop_never_raises)

text \<open>
  Once \<open>ponder\<close> has scheduled its generator, nothing that is raised on the scheduler's
  loop reaches the caller: no behaviour of the synchronous iterator ends with an
  exception.
\<close>

lemma ponder_never_raises_after_scheduling:
  assumes "mode = KNOWN \<or> mode = PROVE"
    and "ponder lg kb n formulas mode = Some runs"
    and "g \<in> set runs"
  shows "ending g \<noteq> Raised e"
proof -
  from assms(1) obtain pp where pp: "make_proving_process lg kb formulas mode = Inr pp"
    by (auto simp: make_proving_process_def)
  with assms(2) obtain rs where "runs = remdups (map schedule_generator (concat rs))"
    by (auto simp: ponder_def)
  with assms(3) obtain g' where "g = schedule_generator g'" by auto
  then show ?thesis by (simp add: schedule_generator_never_raises)
qed

text \<open>
  C2: the claim is that the exception of a failing handler leaves the iterator of
  \<open>ponder\<close>. In \<open>test_listener_exceptions_make_the_whole_thing_fail\<close> the code does
  otherwise: pondering \<open>Is(dylan, cat)\<close> in the mode KNOWN has one behaviour, which yields
  the proof of \<open>Meows(dylan)\<close> by the succeeding listener and ends without an exception.
\<close>

theorem failing_listener_is_swallowed:
  "ponder spec_logic exceptions_kb 10 [LogicObject (Is dylan cat)] KNOWN
   = Some [Gen [meows_proof] Finished]"
  by code_simp

text \<open>
  C6: \<open>prove\<close> called in a task of the scheduler's loop raises RuntimeError and yields no
  proof. The claim is that a call outside any task does not; the code raises the same
  error in a callback of a running loop, where no task is current.
\<close>

theorem prove_raises_in_loop_callback:
  "prove lg kb (InTask (scheduler kb)) formula retrieve_only previous_substitution =
     [Gen [] (Raised RuntimeError)]
   \<and> prove lg kb (LoopCallback l) formula retrieve_only previous_substitution =
     [Gen [] (Raised RuntimeError)]"
  by (simp add: prove_def is_inside_task_def)

text \<open>Called in a thread that runs no event loop, \<open>prove\<close> raises nothing.\<close>

lemma prove_outside_any_loop:
  "g \<in> set (prove lg kb NoRunningLoop formula retrieve_only previous_substitution) \<Longrightarrow>
     ending g \<noteq> Raised e"
  by (auto simp: prove_def is_inside_task_def schedule_generator_never_raises)

subsection \<open>Argument modes\<close>

text \<open>
  C7: when the extraction of the arguments refuses (the ValueError of a violated argument
  mode), the fired listener yields no proof and ends without an exception.
\<close>

theorem refusal_is_silent:
  assumes "unify lg (conclusion p)
             (LogicObject (fst (normalize_variables lg (listened_formula l))))
             (substitution p) = Inr (Some unifier)"
    and "extract_args_by_name lg (argument_mode l) (conclusion p) unifier
           (snd (normalize_variables lg (listened_formula l))) = Inl ValueError"
  shows "listener_ponder lg kb l p = Gen [] Finished"
proof (cases "normalize_variables lg (listened_formula l)")
  case (Pair normalized_listened_formula normalization_mapping)
  with assms show ?thesis
    by (simp add: listener_ponder_def is_hypothetical_def Let_def)
qed

theorem refusal_is_silent_witness:
  "listener_ponder spec_logic (new_knowledge_base 100 7)
     (two_cats_listener MAP_UNWRAPPED_REQUIRED) (are_trigger dylan (Wrapper ''hugo''))
   = Gen [] Finished
   \<and> listener_ponder spec_logic (new_knowledge_base 100 7)
     (two_cats_listener MAP_NO_VARIABLES) (are_trigger dylan (Variable 8))
   = Gen [] Finished"
proof -
  let ?l = "two_cats_listener MAP_UNWRAPPED_REQUIRED"
  let ?p = "are_trigger dylan (Wrapper ''hugo'')"
  let ?u = "[(3, Wrapper ''hugo''), (1, dylan)]"
  have h1: "unify spec_logic (conclusion ?p)
             (LogicObject (fst (normalize_variables spec_logic (listened_formula ?l))))
             (substitution ?p) = Inr (Some ?u)"
    by code_simp
  have h2: "extract_args_by_name spec_logic (argument_mode ?l) (conclusion ?p) ?u
           (snd (normalize_variables spec_logic (listened_formula ?l))) = Inl ValueError"
    by code_simp
  let ?l' = "two_cats_listener MAP_NO_VARIABLES"
  let ?p' = "are_trigger dylan (Variable 8)"
  let ?u' = "[(8, Variable 3), (1, dylan)]"
  have h3: "unify spec_logic (conclusion ?p')
             (LogicObject (fst (normalize_variables spec_logic (listened_formula ?l'))))
             (substitution ?p') = Inr (Some ?u')"
    by code_simp
  have h4: "extract_args_by_name spec_logic (argument_mode ?l') (conclusion ?p') ?u'
           (snd (normalize_variables spec_logic (listened_formula ?l'))) = Inl ValueError"
    by code_simp
  show ?thesis
    using refusal_is_silent [OF h1 h2] refusal_is_silent [OF h3 h4] by simp
qed


text \<open>The modes of the spec refuse as the claim says.\<close>

lemma spec_refusals:
  "list_ex (\<lambda>(v, v'). \<not> is_Wrapper (spec_apply unifier (Variable v'))) m \<Longrightarrow>
     spec_extract_args_by_name MAP_UNWRAPPED_REQUIRED formula unifier m = Inl ValueError"
  "list_ex (\<lambda>(v, v'). is_Variable (spec_apply unifier (Variable v'))) m \<Longrightarrow>
     spec_extract_args_by_name MAP_NO_VARIABLES formula unifier m = Inl ValueError"
  "list_ex (\<lambda>(v, v'). is_Variable (spec_apply unifier (Variable v'))) m \<Longrightarrow>
     spec_extract_args_by_name MAP_UNWRAPPED_NO_VARIABLES formula unifier m = Inl ValueError"
  by (auto simp: spec_extract_args_by_name_def Let_def list_ex_iff split: prod.splits)


subsection \<open>What a handler returns\<close>

lemma fired_ponder:
  assumes "fired lg l p unifier result"
  shows "listener_ponder lg kb l p =
           (case await_coroutine result of
              Inl e \<Rightarrow> Gen [] (Raised e)
            | Inr result \<Rightarrow>
                if result = PyNone then Gen [] Finished
                else
                  (case async_for (prepare_result result) of
                     Inl e \<Rightarrow> Gen [] (Raised e)
                   | Inr (its, e) \<Rightarrow> ponder_loop l (conclusion p) unifier p its e))"
proof (cases "normalize_variables lg (listened_formula l)")
  case (Pair normalized_listened_formula normalization_mapping)
  with assms obtain args_by_name where
    u: "unify lg (conclusion p) (LogicObject normalized_listened_formula) (substitution p)
          = Inr (Some unifier)"
    and a: "extract_args_by_name lg (argument_mode l) (conclusion p) unifier
              normalization_mapping = Inr args_by_name"
    and h: "handler l args_by_name = Inr result"
    by (auto simp: fired_def split: sum.splits)
  show ?thesis
    by (simp add: listener_ponder_def is_hypothetical_def Let_def Pair u a h)
qed

lemma ponder_loop_terms:
  "list_all is_LogicObject ts \<Longrightarrow>
     map conclusion (items (ponder_loop l formula unifier p ts None)) = ts
     \<and> map substitution (items (ponder_loop l formula unifier p ts None))
         = map (\<lambda>t. SubstitutionV unifier) ts
     \<and> ending (ponder_loop l formula unifier p ts None) = Finished"
proof (induction ts arbitrary: p)
  case Nil
  show ?case by simp
next
  case (Cons t ts)
  from Cons.prems obtain x where x: "t = LogicObject x"
    by (cases t) auto
  from Cons.prems have "list_all is_LogicObject ts" by simp
  from Cons.IH [OF this] x show ?case
    by (simp add: ponder_item_def yield_first_def)
qed

lemma prepare_tuple_of_terms:
  assumes "length ts = 2 \<or> length ts = 3"
  shows "prepare_result (PyTuple ts) =
           (if list_all is_LogicObject ts then AsyncIterable ts None
            else AsyncIterable [PyTuple ts] None)"
  using assms
  by (auto simp: prepare_result_def is_single_result_def wrap_item_in_async_generator_def
        Let_def)

text \<open>
  C10: when the handler returns a tuple of two or three elements that are all
  LogicObjects, every element is a conclusion of its own, with the unifier as its
  substitution; when an element is not a LogicObject, the tuple is one item: a pair is
  (conclusion, substitution), a triple (conclusion, substitution, premises).
\<close>

theorem tuple_of_terms_is_several_conclusions:
  assumes "fired lg l p unifier (PyTuple ts)"
    and "length ts = 2 \<or> length ts = 3"
  shows "(list_all is_LogicObject ts \<longrightarrow>
            map conclusion (items (listener_ponder lg kb l p)) = ts
            \<and> map substitution (items (listener_ponder lg kb l p))
                = map (\<lambda>t. SubstitutionV unifier) ts
            \<and> ending (listener_ponder lg kb l p) = Finished)
       \<and> (\<not> list_all is_LogicObject ts \<longrightarrow>
            listener_ponder lg kb l p =
              ponder_loop l (conclusion p) unifier p [PyTuple ts] None)
       \<and> (\<forall>c s. ts = [c, s] \<and> \<not> list_all is_LogicObject ts \<longrightarrow>
            listener_ponder lg kb l p =
              Gen [Proof (Pondering (listener_id l) (conclusion p)) c s [ProofV p]] Finished)
       \<and> (\<forall>c s ps extra.
            ts = [c, s, ps] \<and> \<not> list_all is_LogicObject ts
            \<and> iterate (if is_Proof ps then PyTuple [ps] else ps) = Inr extra \<longrightarrow>
            listener_ponder lg kb l p =
              Gen [Proof (Pondering (listener_id l) (conclusion p)) c s (ProofV p # extra)]
                  Finished)"
proof -
  have run: "listener_ponder lg kb l p =
          (if list_all is_LogicObject ts
           then ponder_loop l (conclusion p) unifier p ts None
           else ponder_loop l (conclusion p) unifier p [PyTuple ts] None)"
    using fired_ponder [OF assms(1)] prepare_tuple_of_terms [OF assms(2)]
    by simp
  have terms: "list_all is_LogicObject ts \<longrightarrow>
            map conclusion (items (listener_ponder lg kb l p)) = ts
            \<and> map substitution (items (listener_ponder lg kb l p))
                = map (\<lambda>t. SubstitutionV unifier) ts
            \<and> ending (listener_ponder lg kb l p) = Finished"
    using run ponder_loop_terms [of ts l "conclusion p" unifier p] by simp
  have single: "\<not> list_all is_LogicObject ts \<longrightarrow>
            listener_ponder lg kb l p =
              ponder_loop l (conclusion p) unifier p [PyTuple ts] None"
    using run by simp
  have pair: "\<forall>c s. ts = [c, s] \<and> \<not> list_all is_LogicObject ts \<longrightarrow>
            listener_ponder lg kb l p =
              Gen [Proof (Pondering (listener_id l) (conclusion p)) c s [ProofV p]] Finished"
  proof (intro allI impI)
    fix c s
    assume a: "ts = [c, s] \<and> \<not> list_all is_LogicObject ts"
    with single have "listener_ponder lg kb l p =
        ponder_loop l (conclusion p) unifier p [PyTuple ts] None"
      by blast
    with a show "listener_ponder lg kb l p =
        Gen [Proof (Pondering (listener_id l) (conclusion p)) c s [ProofV p]] Finished"
      by (simp add: ponder_item_def yield_first_def)
  qed
  have triple: "\<forall>c s ps extra.
            ts = [c, s, ps] \<and> \<not> list_all is_LogicObject ts
            \<and> iterate (if is_Proof ps then PyTuple [ps] else ps) = Inr extra \<longrightarrow>
            listener_ponder lg kb l p =
              Gen [Proof (Pondering (listener_id l) (conclusion p)) c s (ProofV p # extra)]
                  Finished"
  proof (intro allI impI)
    fix c s ps extra
    assume a: "ts = [c, s, ps] \<and> \<not> list_all is_LogicObject ts
            \<and> iterate (if is_Proof ps then PyTuple [ps] else ps) = Inr extra"
    with single have "listener_ponder lg kb l p =
        ponder_loop l (conclusion p) unifier p [PyTuple ts] None"
      by blast
    with a show "listener_ponder lg kb l p =
        Gen [Proof (Pondering (listener_id l) (conclusion p)) c s (ProofV p # extra)] Finished"
      by (simp add: ponder_item_def yield_first_def)
  qed
  from terms single pair triple show ?thesis by blast
qed


theorem tuple_of_terms_is_several_conclusions_witness:
  "map conclusion (items (listener_ponder spec_logic (new_knowledge_base 100 7)
                            meow_and_purr a_trigger))
     = [LogicObject (pred ''Meows'' dylan), LogicObject (pred ''Purrs'' dylan)]
   \<and> listener_ponder spec_logic (new_knowledge_base 100 7) meow_pair a_trigger
     = Gen [Proof (Pondering 2 (LogicObject (Is dylan cat)))
              (LogicObject (pred ''Meows'' dylan)) (SubstitutionV []) [ProofV a_trigger]]
           Finished"
proof -
  let ?ts = "[LogicObject (pred ''Meows'' dylan), LogicObject (pred ''Purrs'' dylan)]"
  let ?pair = "[LogicObject (pred ''Meows'' dylan), SubstitutionV []]"
  have f1: "fired spec_logic meow_and_purr a_trigger [(1, dylan)] (PyTuple ?ts)"
    by code_simp
  have f2: "fired spec_logic meow_pair a_trigger [(1, dylan)] (PyTuple ?pair)"
    by code_simp
  have l1: "length ?ts = 2 \<or> length ?ts = 3" by simp
  have l2: "length ?pair = 2 \<or> length ?pair = 3" by simp
  have c: "conclusion a_trigger = LogicObject (Is dylan cat)"
    by (simp add: a_trigger_def trigger_premise_def)
  have t1: "list_all is_LogicObject ?ts" by simp
  have t2: "\<not> list_all is_LogicObject ?pair" by simp
  have a: "map conclusion (items (listener_ponder spec_logic (new_knowledge_base 100 7)
                                   meow_and_purr a_trigger)) = ?ts"
    using tuple_of_terms_is_several_conclusions [OF f1 l1, of "new_knowledge_base 100 7"] t1
    by blast
  have b: "listener_ponder spec_logic (new_knowledge_base 100 7) meow_pair a_trigger
     = Gen [Proof (Pondering (listener_id meow_pair) (conclusion a_trigger))
              (LogicObject (pred ''Meows'' dylan)) (SubstitutionV []) [ProofV a_trigger]]
           Finished"
    using tuple_of_terms_is_several_conclusions [OF f2 l2, of "new_knowledge_base 100 7"] t2
    by blast
  have i: "listener_id meow_pair = 2" by (simp add: meow_pair_def)
  from a b c i show ?thesis by simp
qed

subsection \<open>The proofs of a listener\<close>

text \<open>
  Every proof of a listener has the listener and the triggering formula as its
  inference rule, and a single term returned by the handler gives one proof, of this
  term, with the unifier and the triggering proof as its only premise.
\<close>

lemma ponder_loop_inference_rule:
  "q \<in> set (items (ponder_loop l formula unifier p its e)) \<Longrightarrow>
     inference_rule q = Pondering (listener_id l) formula"
proof (induction its arbitrary: p)
  case Nil
  then show ?case by simp
next
  case (Cons item rest)
  then show ?case
    by (auto simp: ponder_item_def yield_first_def split: sum.splits prod.splits)
qed

lemma single_term_result:
  assumes "fired lg l p unifier (LogicObject t)"
  shows "listener_ponder lg kb l p =
           Gen [Proof (Pondering (listener_id l) (conclusion p)) (LogicObject t)
                  (SubstitutionV unifier) [ProofV p]] Finished"
  using fired_ponder [OF assms]
  by (simp add: prepare_result_def is_single_result_def wrap_item_in_async_generator_def
        ponder_item_def yield_first_def)

text \<open>
  C4: the claim is that the premises of every proof of a fired listener start with the
  triggering proof. The code assigns each proof to the variable that held the triggering
  proof: when the handler of \<open>test_listener_multiple_formulas_returned\<close> returns
  \<open>(Meows(x), Purrs(x))\<close>, the only premise of the second proof is the first proof.
\<close>

theorem second_proof_rests_on_first:
  "listener_ponder spec_logic (new_knowledge_base 100 7) meow_and_purr a_trigger =
     Gen [meows_proof,
          Proof (Pondering 1 (LogicObject (Is dylan cat))) (LogicObject (pred ''Purrs'' dylan))
            (SubstitutionV [(1, dylan)]) [ProofV meows_proof]] Finished
   \<and> meows_proof \<noteq> a_trigger"
  by code_simp

subsection \<open>The chain of listeners\<close>

text \<open>
  C9: with the listeners A to B, B to C and C to D and the stored formula \<open>A(foo)\<close>,
  pondering \<open>A(foo)\<close> in the mode KNOWN has one behaviour: it yields proofs of
  \<open>B(foo)\<close>, \<open>C(foo)\<close> and \<open>D(foo)\<close>, in this order, and ends.
\<close>

theorem listener_chain_order:
  "map_option (map (\<lambda>g. (map conclusion (items g), ending g)))
     (ponder spec_logic chain_kb 10 [LogicObject (pred ''A'' (Constant ''foo''))] KNOWN)
   = Some [([LogicObject (pred ''B'' (Constant ''foo'')),
             LogicObject (pred ''C'' (Constant ''foo'')),
             LogicObject (pred ''D'' (Constant ''foo''))], Finished)]"
  by code_simp

end
